theory Spec2Isabelle
  imports Main "HOL-Library.Char_ord" "HOL-Library.List_Lexorder"
begin

section \<open>The dev server (devserver.py)\<close>

text \<open>
  A shallow embedding of the request handlers of \<^verbatim>\<open>DevServerRoot\<close> and \<^verbatim>\<open>ApiRoot\<close> and of
  the cache set-up of the main program. Python exceptions are values of type \<open>error\<close>; a
  handler returns \<open>Inl e\<close> where the source raises \<open>e\<close>.
\<close>

subsection \<open>Exceptions and values\<close>

datatype error =
    DevServerError string
  | HTTPError nat string
  | DownloaderRaised string

text \<open>
  What \<^verbatim>\<open>wait_for_status\<close> hands back: the text \<^verbatim>\<open>'Success'\<close> of the source is
  \<open>Text ''Success''\<close>; \<open>Failure msg\<close> is the terminal status of a failed background task.
\<close>

datatype status = Text string | Failure string

text \<open>A value of \<^verbatim>\<open>_downloader_dict\<close>: \<^verbatim>\<open>None\<close> or a \<^verbatim>\<open>Downloader\<close> object, by identity.\<close>

datatype pyref = PyNone | Ref nat

datatype task_state = NotStarted | Running | Succeeded | Failed string

record task =
  task_key :: "string option"
  state :: task_state

text \<open>
  The state the handlers share: the dictionary \<^verbatim>\<open>self._downloader_dict\<close>, the
  \<^verbatim>\<open>Downloader\<close> objects created so far (the object with identity \<open>i\<close> is
  \<open>instances s ! i\<close>), and the archive urls staged under \<^verbatim>\<open>updater.static_dir\<close>.
\<close>

record server =
  downloader_dict :: "string \<rightharpoonup> pyref"
  instances :: "task list"
  staged :: "string set"

text \<open>\<^verbatim>\<open>DevServerRoot.__init__\<close>; the contents of the static directory are a parameter.\<close>

definition init_server :: "string set \<Rightarrow> server" where
  "init_server st = \<lparr>downloader_dict = Map.empty, instances = [], staged = st\<rparr>"

text \<open>\<^verbatim>\<open>dict.get(key)\<close>: \<^verbatim>\<open>None\<close> for a key that is absent.\<close>

definition dict_get :: "(string \<rightharpoonup> pyref) \<Rightarrow> string \<Rightarrow> pyref" where
  "dict_get d k = (case d k of None \<Rightarrow> PyNone | Some v \<Rightarrow> v)"

definition no_archive_url :: error where
  "no_archive_url = DevServerError (''Didn'' @ [CHR 0x27] @ ''t specify the archive_url in request'')"

definition no_download_found :: error where
  "no_download_found = DevServerError ''No download for the given archive_url found.''"

subsection \<open>The downloader module\<close>

text \<open>
  Modelled from the spec: the class \<^verbatim>\<open>downloader.Downloader\<close> (module \<^verbatim>\<open>downloader\<close> is
  imported by devserver.py and is not among the sources). \<^verbatim>\<open>Downloader(static_dir)\<close>
  creates an object on which nothing has been started.
\<close>

definition Downloader :: "server \<Rightarrow> nat \<times> server" where
  "Downloader s =
     (length (instances s),
      s\<lparr>instances := instances s @ [\<lparr>task_key = None, state = NotStarted\<rparr>]\<rparr>)"

text \<open>
  Modelled from the spec: \<^verbatim>\<open>Downloader.Download(archive_url, background=True)\<close>. The
  call either raises or returns; when it returns, the staging work it has launched goes on
  in the background (StartStaging: ``creates a Running task and launches staging
  asynchronously''). Which of the two happens, and the exception or the returned object,
  is the parameter \<open>launch\<close>: the model does not say what makes a call raise, as the
  source does not either (lines 239 to 241 catch whatever is raised).
\<close>

definition Download :: "server \<Rightarrow> nat \<Rightarrow> string \<Rightarrow> error + string \<Rightarrow> (error + string) \<times> server" where
  "Download s i archive_url launch =
     (case launch of
        Inl e \<Rightarrow>
          (Inl e,
           s\<lparr>instances := (instances s)[i := \<lparr>task_key = Some archive_url, state = NotStarted\<rparr>]\<rparr>)
      | Inr return_obj \<Rightarrow>
          (Inr return_obj,
           s\<lparr>instances := (instances s)[i := \<lparr>task_key = Some archive_url, state = Running\<rparr>]\<rparr>))"

text \<open>
  Modelled from the spec: the end of the background work of object \<open>i\<close>, the result of
  \<^verbatim>\<open>BlobStore.Fetch(key) -> (path, error)\<close>. A fetch error \<open>Some msg\<close> is ``captured as
  terminal Failed with a message''; a fetch without error materializes the artifact
  under the cache root. Only a Running task can end.
\<close>

definition fetch_completes :: "server \<Rightarrow> nat \<Rightarrow> string option \<Rightarrow> server" where
  "fetch_completes s i err =
     (if i < length (instances s) \<and> state (instances s ! i) = Running then
        (case err of
           Some msg \<Rightarrow> s\<lparr>instances := (instances s)[i := (instances s ! i)\<lparr>state := Failed msg\<rparr>]\<rparr>
         | None \<Rightarrow>
             s\<lparr>instances := (instances s)[i := (instances s ! i)\<lparr>state := Succeeded\<rparr>],
               staged := (case task_key (instances s ! i) of
                            None \<Rightarrow> staged s
                          | Some k \<Rightarrow> insert k (staged s))\<rparr>)
      else s)"

text \<open>
  Modelled from the spec: \<^verbatim>\<open>Downloader.GetStatusOfBackgroundDownloads()\<close> (Poll: ``blocks
  the caller until terminal, returns it''). \<open>None\<close> is the call that does not return in
  this state: the task is still Running, or nothing was ever started on the object.
\<close>

definition GetStatusOfBackgroundDownloads :: "server \<Rightarrow> nat \<Rightarrow> status option" where
  "GetStatusOfBackgroundDownloads s i =
     (if i < length (instances s) then
        (case state (instances s ! i) of
           NotStarted \<Rightarrow> None
         | Running \<Rightarrow> None
         | Succeeded \<Rightarrow> Some (Text ''Success'')
         | Failed msg \<Rightarrow> Some (Failure msg))
      else None)"

text \<open>
  Modelled from the spec: \<^verbatim>\<open>Downloader.BuildStaged(archive_url, static_dir)\<close>
  (\<^verbatim>\<open>ArtifactCache.IsStaged\<close>: ``checks for a materialized artifact under the cache root
  independent of in-memory tracking'').
\<close>

definition BuildStaged :: "server \<Rightarrow> string \<Rightarrow> bool" where
  "BuildStaged s archive_url = (archive_url \<in> staged s)"

subsection \<open>download and wait_for_status\<close>

text \<open>
  \<^verbatim>\<open>DevServerRoot.download\<close>, lines 229 to 243. \<open>kwargs\<close> is \<^verbatim>\<open>kwargs.get('archive_url')\<close>.
  The object is created before the url is looked at (line 229); the dictionary is written
  before \<^verbatim>\<open>Download\<close> is called (line 236) and set to \<^verbatim>\<open>None\<close> when the call raises
  (line 240), the exception being raised again.
\<close>

definition download :: "server \<Rightarrow> string option \<Rightarrow> error + string \<Rightarrow> (error + string) \<times> server" where
  "download s kwargs launch =
     (case Downloader s of
        (downloader_instance, s0) \<Rightarrow>
          (case kwargs of
             None \<Rightarrow> (Inl no_archive_url, s0)
           | Some archive_url \<Rightarrow>
               if archive_url = [] then (Inl no_archive_url, s0)
               else
                 (case Download
                         (s0\<lparr>downloader_dict :=
                               (downloader_dict s0)(archive_url \<mapsto> Ref downloader_instance)\<rparr>)
                         downloader_instance archive_url launch of
                    (Inl e, s2) \<Rightarrow>
                      (Inl e, s2\<lparr>downloader_dict := (downloader_dict s2)(archive_url \<mapsto> PyNone)\<rparr>)
                  | (Inr return_obj, s2) \<Rightarrow> (Inr return_obj, s2))))"

text \<open>
  \<^verbatim>\<open>DevServerRoot.wait_for_status\<close>, lines 311 to 328. The test of line 316 holds of a
  \<^verbatim>\<open>Downloader\<close> object and fails of \<^verbatim>\<open>None\<close>. The result is \<open>None\<close> when the call
  does not return in this state (it is blocked in \<^verbatim>\<open>GetStatusOfBackgroundDownloads\<close>).
\<close>

definition wait_for_status :: "server \<Rightarrow> string option \<Rightarrow> ((error + status) \<times> server) option" where
  "wait_for_status s kwargs =
     (case kwargs of
        None \<Rightarrow> Some (Inl no_archive_url, s)
      | Some archive_url \<Rightarrow>
          if archive_url = [] then Some (Inl no_archive_url, s)
          else
            (case dict_get (downloader_dict s) archive_url of
               Ref downloader_instance \<Rightarrow>
                 (case GetStatusOfBackgroundDownloads s downloader_instance of
                    None \<Rightarrow> None
                  | Some status \<Rightarrow>
                      Some (Inr status,
                            s\<lparr>downloader_dict := (downloader_dict s)(archive_url \<mapsto> PyNone)\<rparr>))
             | PyNone \<Rightarrow>
                 if BuildStaged s archive_url then Some (Inr (Text ''Success''), s)
                 else Some (Inl no_download_found, s)))"

subsection \<open>Runs of the server\<close>

text \<open>
  What happens to the server, one event at a time: a download request with the outcome of
  its launch, a wait_for_status request at the moment it returns (one that would block
  leaves the state as it is), and the end of a background fetch.
\<close>

datatype request =
    DownloadReq "string option" "error + string"
  | WaitReq "string option"
  | FetchDone nat "string option"

fun step :: "server \<Rightarrow> request \<Rightarrow> server" where
  "step s (DownloadReq kwargs launch) = snd (download s kwargs launch)"
| "step s (WaitReq kwargs) =
     (case wait_for_status s kwargs of None \<Rightarrow> s | Some (r, s') \<Rightarrow> s')"
| "step s (FetchDone i err) = fetch_completes s i err"

definition run :: "server \<Rightarrow> request list \<Rightarrow> server" where
  "run s reqs = foldl step s reqs"

text \<open>The tasks Running for a key, and those of them the dictionary tracks.\<close>

definition running_tasks :: "server \<Rightarrow> string \<Rightarrow> nat list" where
  "running_tasks s k =
     filter (\<lambda>i. task_key (instances s ! i) = Some k \<and> state (instances s ! i) = Running)
       [0..<length (instances s)]"

definition tracked_running :: "server \<Rightarrow> string \<Rightarrow> nat list" where
  "tracked_running s k =
     filter (\<lambda>i. downloader_dict s k = Some (Ref i)) (running_tasks s k)"

fun is_download_of :: "string \<Rightarrow> request \<Rightarrow> bool" where
  "is_download_of k (DownloadReq kwargs launch) = (kwargs = Some k)"
| "is_download_of k (WaitReq kwargs) = False"
| "is_download_of k (FetchDone i err) = False"

text \<open>Two states in which \<^verbatim>\<open>dict.get\<close> answers alike for every key.\<close>

definition same_view :: "server \<Rightarrow> server \<Rightarrow> bool" where
  "same_view s t =
     (instances s = instances t \<and> staged s = staged t \<and>
      dict_get (downloader_dict s) = dict_get (downloader_dict t))"

text \<open>
  What holds of every dictionary entry in a run from the initial state: the object it names
  exists, was asked to download just this key, and its work was started.
\<close>

definition wf_server :: "server \<Rightarrow> bool" where
  "wf_server s =
     (\<forall>k i. downloader_dict s k = Some (Ref i) \<longrightarrow>
        k \<noteq> [] \<and> i < length (instances s) \<and> task_key (instances s ! i) = Some k \<and>
        state (instances s ! i) \<noteq> NotStarted)"

text \<open>The states of Scenario A: the build is being fetched, and the fetch has ended well.\<close>

definition build_A :: string where
  "build_A = ''gs://bucket/build-A''"

definition running_A :: server where
  "running_A = run (init_server {}) [DownloadReq (Some build_A) (Inr ''Success'')]"

definition staged_A :: server where
  "staged_A = run (init_server {}) [DownloadReq (Some build_A) (Inr ''Success''), FetchDone 0 None]"

subsection \<open>setnextupdate\<close>

text \<open>
  \<^verbatim>\<open>str.strip()\<close> of Python 2 on a byte string: the white space is blank, tab, line
  feed, vertical tab, form feed and carriage return.
\<close>

definition isspace :: "char \<Rightarrow> bool" where
  "isspace c = (c \<in> {CHR 0x09, CHR 0x0A, CHR 0x0B, CHR 0x0C, CHR 0x0D, CHR 0x20})"

definition strip :: "string \<Rightarrow> string" where
  "strip s = rev (dropWhile isspace (rev (dropWhile isspace s)))"

definition no_label_provided :: error where
  "no_label_provided = HTTPError 400 ''No label provided.''"

text \<open>
  \<^verbatim>\<open>ApiRoot.setnextupdate\<close>, lines 181 to 185. \<open>label\<close> is the request body as read at
  lines 178 and 179; \<open>handle\<close> is \<^verbatim>\<open>updater.HandleSetUpdatePing\<close>, which works on the
  updater's state \<open>u\<close>.
\<close>

definition setnextupdate ::
    "('u \<Rightarrow> string \<Rightarrow> string \<Rightarrow> 'r \<times> 'u) \<Rightarrow> 'u \<Rightarrow> string \<Rightarrow> string \<Rightarrow> (error + 'r) \<times> 'u" where
  "setnextupdate handle u ip label =
     (if label \<noteq> [] then
        (if strip label \<noteq> [] then
           (case handle u ip (strip label) of (r, u') \<Rightarrow> (Inr r, u'))
         else (Inl no_label_provided, u))
      else (Inl no_label_provided, u))"

text \<open>The record the updater keeps for a host (section 3 of the specification).\<close>

record host_record =
  event_log :: "(nat \<times> int \<times> int \<times> string) list"
  forced_label :: "string option"

text \<open>
  Modelled from the spec: \<^verbatim>\<open>Autoupdate.HandleSetUpdatePing(ip, label)\<close> (module
  \<^verbatim>\<open>autoupdate\<close> is not among the sources); SetOverride ``creates the record if absent;
  sets forced-label''.
\<close>

definition HandleSetUpdatePing ::
    "(string \<rightharpoonup> host_record) \<Rightarrow> string \<Rightarrow> string \<Rightarrow> unit \<times> (string \<rightharpoonup> host_record)" where
  "HandleSetUpdatePing hosts ip label =
     ((), hosts(ip \<mapsto>
            (case hosts ip of
               None \<Rightarrow> \<lparr>event_log = [], forced_label = Some label\<rparr>
             | Some h \<Rightarrow> h\<lparr>forced_label := Some label\<rparr>)))"

subsection \<open>symbolicate_dump\<close>

text \<open>The decimal text of a number, as \<^verbatim>\<open>%d\<close> prints it.\<close>

function str_nat :: "nat \<Rightarrow> string" where
  "str_nat n =
     (if n < 10 then [''0123456789'' ! n]
      else str_nat (n div 10) @ [''0123456789'' ! (n mod 10)])"
  by pat_completeness auto
termination
  by (relation "measure id") auto

declare str_nat.simps [simp del]

definition str_int :: "int \<Rightarrow> string" where
  "str_int i = (if i < 0 then CHR ''-'' # str_nat (nat (- i)) else str_nat (nat i))"

text \<open>
  The loop of lines 282 to 286: \<^verbatim>\<open>minidump.file.read(8192)\<close> until it reads nothing,
  each chunk written to the temporary file. \<open>file\<close> is what is left to read, \<open>local\<close>
  what has been written.
\<close>

function copy_minidump :: "string \<Rightarrow> string \<Rightarrow> string" where
  "copy_minidump file local =
     (if take 8192 file = [] then local
      else copy_minidump (drop 8192 file) (local @ take 8192 file))"
  by pat_completeness auto
termination
  by (relation "measure (\<lambda>(file, local). length file)") auto

declare copy_minidump.simps [simp del]

text \<open>
  \<^verbatim>\<open>DevServerRoot.symbolicate_dump\<close>, lines 280 to 298. The process
  \<^verbatim>\<open>minidump_stackwalk\<close> is the parameter \<open>stackwalk\<close>: from the contents of the dump
  file and the symbols directory to what \<^verbatim>\<open>communicate()\<close> and \<^verbatim>\<open>returncode\<close> give,
  (stdout, stderr, return code).
\<close>

definition symbolicate_dump ::
    "(string \<Rightarrow> string \<Rightarrow> string \<times> string \<times> int) \<Rightarrow> string \<Rightarrow> string \<Rightarrow> error + string" where
  "symbolicate_dump stackwalk static_dir minidump =
     (case stackwalk (copy_minidump minidump []) (static_dir @ ''/debug/breakpad'') of
        (to_return, error_text, returncode) \<Rightarrow>
          if returncode \<noteq> 0 then
            Inl (DevServerError
                   (''Can'' @ [CHR 0x27] @ ''t generate stack trace: '' @ error_text @
                    '' (rc='' @ str_int returncode @ '')''))
          else Inr to_return)"

text \<open>Scenario B: the host with the override \<^verbatim>\<open>R1-100\<close> pending.\<close>

definition host_R1 :: "string \<rightharpoonup> host_record" where
  "host_R1 = [''10.0.0.5'' \<mapsto> \<lparr>event_log = [], forced_label = Some ''R1-100''\<rparr>]"

text \<open>A symbolizer that knows one dump and fails on every other.\<close>

definition stackwalk_ex :: "string \<Rightarrow> string \<Rightarrow> string \<times> string \<times> int" where
  "stackwalk_ex dump symbols =
     (if dump = ''MDMP'' then (''Crash reason: SIGSEGV'', '''', 0) else ('''', ''no dump'', 1))"

subsection \<open>The cache directory at start-up\<close>

definition CACHED_ENTRIES :: nat where
  "CACHED_ENTRIES = 12"

text \<open>
  The cache directory is the list of its entries, each with its name and its modification
  time; a directory has no two entries of one name.
\<close>

record entry =
  name :: string
  mtime :: nat

text \<open>
  The two shell commands of lines 486 and 494 are run by \<^verbatim>\<open>/bin/sh\<close>; what follows is
  what the tools in them do to the directory. \<^verbatim>\<open>ls\<close> without \<^verbatim>\<open>-a\<close>, and the pattern
  \<^verbatim>\<open>*\<close>, leave out the names that start with a dot.
\<close>

definition hidden :: "string \<Rightarrow> bool" where
  "hidden n = (case n of [] \<Rightarrow> False | c # cs \<Rightarrow> c = CHR ''.'')"

definition visible :: "entry list \<Rightarrow> entry list" where
  "visible dir = filter (\<lambda>e. \<not> hidden (name e)) dir"

text \<open>
  \<^verbatim>\<open>ls -tr\<close>: \<^verbatim>\<open>-t\<close> lists the newest first and entries of one time by name; \<^verbatim>\<open>-r\<close>
  reverses the whole order. So the oldest comes first, and entries of one time come by
  name downwards (names compared byte by byte, as in the C locale).
\<close>

definition by_age :: "entry list \<Rightarrow> entry list" where
  "by_age dir = sort_key mtime (rev (sort_key name (visible dir)))"

text \<open>
  \<^verbatim>\<open>ls\<close> writes each name and a line feed, as it is when the output is a pipe; so a
  name with a line feed in it makes more than one line for the tools that read them.
\<close>

fun lines_of :: "string \<Rightarrow> string list" where
  "lines_of [] = [[]]"
| "lines_of (c # cs) =
     (if c = CHR 0x0A then [] # lines_of cs
      else (case lines_of cs of [] \<Rightarrow> [[c]] | l # ls \<Rightarrow> (c # l) # ls))"

definition ls_tr :: "entry list \<Rightarrow> string list" where
  "ls_tr dir = concat (map (\<lambda>e. lines_of (name e)) (by_age dir))"

text \<open>\<^verbatim>\<open>head --lines=-n\<close>: all lines but the last \<open>n\<close>.\<close>

definition head_lines_minus :: "nat \<Rightarrow> string list \<Rightarrow> string list" where
  "head_lines_minus n lines = take (length lines - n) lines"

text \<open>
  \<^verbatim>\<open>xargs\<close> splits its input at white space and reads quotes and backslashes, and
  \<^verbatim>\<open>rm\<close> reads an argument that starts with \<^verbatim>\<open>-\<close> as options. A line is handed to
  \<^verbatim>\<open>rm\<close> as the one operand it spells only when it is a plain word.
\<close>

definition xargs_special :: "char \<Rightarrow> bool" where
  "xargs_special c =
     (c \<in> {CHR 0x09, CHR 0x0A, CHR 0x0B, CHR 0x0C, CHR 0x0D, CHR 0x20, CHR 0x22, CHR 0x27, CHR 0x5C})"

definition plain_word :: "string \<Rightarrow> bool" where
  "plain_word w = (w \<noteq> [] \<and> hd w \<noteq> CHR ''-'' \<and> list_all (\<lambda>c. \<not> xargs_special c) w)"

text \<open>
  \<^verbatim>\<open>rm -rf\<close> on operands in the directory: an operand that names no entry is passed
  over (\<^verbatim>\<open>-f\<close>); an entry the system does not let go (\<open>removable\<close> is false) stays,
  the others are still removed, and the exit code is 1.
\<close>

definition rm_rf :: "(string \<Rightarrow> bool) \<Rightarrow> string list \<Rightarrow> entry list \<Rightarrow> nat \<times> entry list" where
  "rm_rf removable operands dir =
     (if list_ex (\<lambda>e. name e \<in> set operands \<and> \<not> removable (name e)) dir then 1 else 0,
      filter (\<lambda>e. \<not> (name e \<in> set operands \<and> removable (name e))) dir)"

text \<open>
  \<^verbatim>\<open>xargs rm -rf\<close>: exit code 123 when \<^verbatim>\<open>rm\<close> fails. What it does with a line that is
  not a plain word is left out of the model (\<open>Inl\<close>).
\<close>

datatype unmodelled = NotOneWord string

definition xargs_rm_rf ::
    "(string \<Rightarrow> bool) \<Rightarrow> string list \<Rightarrow> entry list \<Rightarrow> unmodelled + nat \<times> entry list" where
  "xargs_rm_rf removable lines dir =
     (case filter (\<lambda>l. \<not> plain_word l) lines of
        l # ls \<Rightarrow> Inl (NotOneWord l)
      | [] \<Rightarrow>
          (case rm_rf removable lines dir of
             (rc, dir') \<Rightarrow> Inr (if rc = 0 then 0 else 123, dir')))"

text \<open>
  The commands of lines 486 and 494, and their text. The path of the cache directory is
  put into the text as it is, unquoted. The shell reads it as the one word it spells when
  it is a plain path: absolute, of letters, digits and \<^verbatim>\<open>/ . _ - + , : @\<close> only.
\<close>

definition path_char :: "char \<Rightarrow> bool" where
  "path_char c =
     (c \<in> set (''abcdefghijklmnopqrstuvwxyz'' @ ''ABCDEFGHIJKLMNOPQRSTUVWXYZ'' @
               ''0123456789'' @ ''/._-+,:@''))"

definition plain_path :: "string \<Rightarrow> bool" where
  "plain_path p = (case p of [] \<Rightarrow> False | c # cs \<Rightarrow> c = CHR ''/'' \<and> list_all path_char cs)"

datatype cmd = ClearCache string | CleanOld string nat

fun cmd_text :: "cmd \<Rightarrow> string" where
  "cmd_text (ClearCache cache_dir) = ''rm -rf '' @ cache_dir @ ''/*''"
| "cmd_text (CleanOld cache_dir n) =
     ''cd '' @ cache_dir @ ''; ls -tr | head --lines=-'' @ str_nat n @ '' | xargs rm -rf''"

text \<open>
  The names \<^verbatim>\<open>rm\<close> is given, and the exit code of the shell: that of the last command.
  What the shell does with a path that is not a plain path (with a blank in it,
  \<^verbatim>\<open>cd\<close> fails and the pipeline works on another directory) is left out of the model.
\<close>

fun rm_operands :: "cmd \<Rightarrow> entry list \<Rightarrow> string list" where
  "rm_operands (ClearCache cache_dir) dir = map name (visible dir)"
| "rm_operands (CleanOld cache_dir n) dir = head_lines_minus n (ls_tr dir)"

fun sh :: "(string \<Rightarrow> bool) \<Rightarrow> cmd \<Rightarrow> entry list \<Rightarrow> unmodelled + nat \<times> entry list" where
  "sh removable (ClearCache cache_dir) dir =
     (if plain_path cache_dir then
        Inr (rm_rf removable (rm_operands (ClearCache cache_dir) dir) dir)
      else Inl (NotOneWord cache_dir))"
| "sh removable (CleanOld cache_dir n) dir =
     (if plain_path cache_dir then
        xargs_rm_rf removable (rm_operands (CleanOld cache_dir n) dir) dir
      else Inl (NotOneWord cache_dir))"

text \<open>\<^verbatim>\<open>os.system(cmd)\<close>: the wait status, the exit code in the high byte.\<close>

definition os_system ::
    "(string \<Rightarrow> bool) \<Rightarrow> cmd \<Rightarrow> entry list \<Rightarrow> unmodelled + nat \<times> entry list" where
  "os_system removable c dir =
     (case sh removable c dir of
        Inl u \<Rightarrow> Inl u
      | Inr (rc, dir') \<Rightarrow> Inr (256 * rc, dir'))"

text \<open>
  Lines 483 to 501 of the main program. \<open>fs\<close> is the cache directory, \<open>None\<close> when
  \<^verbatim>\<open>os.path.exists(cache_dir)\<close> is false; \<open>system\<close> is \<^verbatim>\<open>os.system\<close>. The result
  records \<^verbatim>\<open>sys.exit(1)\<close> as \<open>exited = Some 1\<close>, the lines logged, the commands run
  and the directory afterwards (empty after \<^verbatim>\<open>os.makedirs\<close>).
\<close>

record startup =
  exited :: "nat option"
  logged :: "string list"
  ran :: "cmd list"
  cache :: "entry list"

definition cache_setup ::
    "(cmd \<Rightarrow> entry list \<Rightarrow> unmodelled + nat \<times> entry list) \<Rightarrow> string \<Rightarrow> bool \<Rightarrow>
     entry list option \<Rightarrow> unmodelled + startup" where
  "cache_setup system cache_dir clear_cache fs =
     (case fs of
        None \<Rightarrow> Inr \<lparr>exited = None, logged = [], ran = [], cache = []\<rparr>
      | Some dir \<Rightarrow>
          if clear_cache then
            (case system (ClearCache cache_dir) dir of
               Inl u \<Rightarrow> Inl u
             | Inr (status, dir') \<Rightarrow>
                 if status \<noteq> 0 then
                   Inr \<lparr>exited = Some 1,
                        logged = [''Failed to clear the cache with '' @
                                  cmd_text (ClearCache cache_dir)],
                        ran = [ClearCache cache_dir], cache = dir'\<rparr>
                 else Inr \<lparr>exited = None, logged = [], ran = [ClearCache cache_dir], cache = dir'\<rparr>)
          else
            (case system (CleanOld cache_dir CACHED_ENTRIES) dir of
               Inl u \<Rightarrow> Inl u
             | Inr (status, dir') \<Rightarrow>
                 if status \<noteq> 0 then
                   Inr \<lparr>exited = Some 1,
                        logged = [''Failed to clean up old delta cache files with '' @
                                  cmd_text (CleanOld cache_dir CACHED_ENTRIES)],
                        ran = [CleanOld cache_dir CACHED_ENTRIES], cache = dir'\<rparr>
                 else
                   Inr \<lparr>exited = None, logged = [], ran = [CleanOld cache_dir CACHED_ENTRIES],
                        cache = dir'\<rparr>))"

text \<open>A deletion fails: \<^verbatim>\<open>rm\<close> is given the name of an entry that it cannot remove.\<close>

definition deletion_fails :: "(string \<Rightarrow> bool) \<Rightarrow> cmd \<Rightarrow> entry list \<Rightarrow> bool" where
  "deletion_fails removable c dir =
     list_ex (\<lambda>e. name e \<in> set (rm_operands c dir) \<and> \<not> removable (name e)) dir"

text \<open>
  Cache directories: thirteen entries, the oldest of them hidden; the same and two more;
  and thirteen entries, the newest with a line feed in its name.
\<close>

definition dir13 :: "entry list" where
  "dir13 =
     [\<lparr>name = ''.keep'', mtime = 1\<rparr>, \<lparr>name = ''b02'', mtime = 2\<rparr>, \<lparr>name = ''b03'', mtime = 3\<rparr>,
      \<lparr>name = ''b04'', mtime = 4\<rparr>, \<lparr>name = ''b05'', mtime = 5\<rparr>, \<lparr>name = ''b06'', mtime = 6\<rparr>,
      \<lparr>name = ''b07'', mtime = 7\<rparr>, \<lparr>name = ''b08'', mtime = 8\<rparr>, \<lparr>name = ''b09'', mtime = 9\<rparr>,
      \<lparr>name = ''b10'', mtime = 10\<rparr>, \<lparr>name = ''b11'', mtime = 11\<rparr>,
      \<lparr>name = ''b12'', mtime = 12\<rparr>, \<lparr>name = ''b13'', mtime = 13\<rparr>]"

definition dir15 :: "entry list" where
  "dir15 = \<lparr>name = ''b15'', mtime = 15\<rparr> # \<lparr>name = ''b14'', mtime = 14\<rparr> # dir13"

definition dir_lf :: "entry list" where
  "dir_lf =
     [\<lparr>name = ''b01'', mtime = 1\<rparr>, \<lparr>name = ''b02'', mtime = 2\<rparr>, \<lparr>name = ''b03'', mtime = 3\<rparr>,
      \<lparr>name = ''b04'', mtime = 4\<rparr>, \<lparr>name = ''b05'', mtime = 5\<rparr>, \<lparr>name = ''b06'', mtime = 6\<rparr>,
      \<lparr>name = ''b07'', mtime = 7\<rparr>, \<lparr>name = ''b08'', mtime = 8\<rparr>, \<lparr>name = ''b09'', mtime = 9\<rparr>,
      \<lparr>name = ''b10'', mtime = 10\<rparr>, \<lparr>name = ''b11'', mtime = 11\<rparr>,
      \<lparr>name = ''b12'', mtime = 12\<rparr>, \<lparr>name = ''b1'' @ [CHR 0x0A] @ ''3'', mtime = 13\<rparr>]"

section \<open>Properties of download and wait_for_status\<close>

lemmas eval_defs = run_def init_server_def download_def Downloader_def Download_def
  fetch_completes_def wait_for_status_def GetStatusOfBackgroundDownloads_def BuildStaged_def
  dict_get_def build_A_def staged_A_def running_A_def

subsection \<open>The three ways a download request goes\<close>

lemma download_no_url:
  "kwargs = None \<or> kwargs = Some [] \<Longrightarrow>
   download s kwargs launch =
     (Inl no_archive_url, s\<lparr>instances := instances s @ [\<lparr>task_key = None, state = NotStarted\<rparr>]\<rparr>)"
  by (auto simp: download_def Downloader_def)

lemma download_raises:
  "archive_url \<noteq> [] \<Longrightarrow>
   download s (Some archive_url) (Inl e) =
     (Inl e, s\<lparr>instances := instances s @ [\<lparr>task_key = Some archive_url, state = NotStarted\<rparr>],
               downloader_dict := (downloader_dict s)(archive_url \<mapsto> PyNone)\<rparr>)"
  by (simp add: download_def Downloader_def Download_def)

lemma download_returns:
  "archive_url \<noteq> [] \<Longrightarrow>
   download s (Some archive_url) (Inr r) =
     (Inr r, s\<lparr>instances := instances s @ [\<lparr>task_key = Some archive_url, state = Running\<rparr>],
               downloader_dict := (downloader_dict s)(archive_url \<mapsto> Ref (length (instances s)))\<rparr>)"
  by (simp add: download_def Downloader_def Download_def)

lemma download_cases:
  obtains (no_url) "kwargs = None \<or> kwargs = Some []"
  | (raises) url e where "kwargs = Some url" "url \<noteq> []" "launch = Inl e"
  | (returns) url r where "kwargs = Some url" "url \<noteq> []" "launch = Inr r"
  by (cases kwargs; cases launch) auto

lemma wait_cases:
  assumes "wait_for_status s kwargs = Some (r, s')"
  shows "s' = s \<or> (\<exists>k. s' = s\<lparr>downloader_dict := (downloader_dict s)(k \<mapsto> PyNone)\<rparr>)"
  using assms
  by (auto simp: wait_for_status_def split: option.splits pyref.splits if_splits)

lemma fetch_dict [simp]: "downloader_dict (fetch_completes s i err) = downloader_dict s"
  by (simp add: fetch_completes_def split: option.splits)

subsection \<open>Every tracked entry names a started task for its key\<close>

lemma wf_init: "wf_server (init_server st)"
  by (simp add: wf_server_def init_server_def)

lemma wf_serverD:
  "wf_server s \<Longrightarrow> downloader_dict s k = Some (Ref i) \<Longrightarrow>
   k \<noteq> [] \<and> i < length (instances s) \<and> task_key (instances s ! i) = Some k \<and>
   state (instances s ! i) \<noteq> NotStarted"
  unfolding wf_server_def by blast

lemma wf_grow:
  assumes "wf_server s" and "instances s' = instances s @ [t]"
    and "\<And>k i. downloader_dict s' k = Some (Ref i) \<Longrightarrow>
           downloader_dict s k = Some (Ref i) \<or>
           (k \<noteq> [] \<and> i = length (instances s) \<and> task_key t = Some k \<and> state t \<noteq> NotStarted)"
  shows "wf_server s'"
  unfolding wf_server_def
proof (intro allI impI)
  fix k i
  assume "downloader_dict s' k = Some (Ref i)"
  from assms(3)[OF this] show "k \<noteq> [] \<and> i < length (instances s') \<and>
      task_key (instances s' ! i) = Some k \<and> state (instances s' ! i) \<noteq> NotStarted"
  proof
    assume "downloader_dict s k = Some (Ref i)"
    from wf_serverD[OF assms(1) this] show ?thesis
      by (simp add: assms(2) nth_append)
  next
    assume "k \<noteq> [] \<and> i = length (instances s) \<and> task_key t = Some k \<and> state t \<noteq> NotStarted"
    then show ?thesis by (simp add: assms(2))
  qed
qed

lemma wf_download:
  assumes "wf_server s"
  shows "wf_server (snd (download s kwargs launch))"
proof (cases rule: download_cases[where kwargs=kwargs and launch=launch])
  case no_url
  show ?thesis
    by (rule wf_grow[OF assms, where t="\<lparr>task_key = None, state = NotStarted\<rparr>"])
       (simp_all add: download_no_url[OF no_url])
next
  case (raises url e)
  show ?thesis unfolding raises
    by (rule wf_grow[OF assms, where t="\<lparr>task_key = Some url, state = NotStarted\<rparr>"])
       (simp_all add: download_raises[OF raises(2)] split: if_splits)
next
  case (returns url r)
  show ?thesis unfolding returns
    by (rule wf_grow[OF assms, where t="\<lparr>task_key = Some url, state = Running\<rparr>"])
       (simp_all add: download_returns[OF returns(2)] returns(2) split: if_splits)
qed

lemma wf_wait:
  assumes "wf_server s" and "wait_for_status s kwargs = Some (r, s')"
  shows "wf_server s'"
proof -
  from wait_cases[OF assms(2)] show ?thesis
  proof
    assume "s' = s" with assms(1) show ?thesis by simp
  next
    assume "\<exists>k. s' = s\<lparr>downloader_dict := (downloader_dict s)(k \<mapsto> PyNone)\<rparr>"
    then obtain k where s': "s' = s\<lparr>downloader_dict := (downloader_dict s)(k \<mapsto> PyNone)\<rparr>" ..
    have "downloader_dict s' k' = Some (Ref i) \<Longrightarrow> downloader_dict s k' = Some (Ref i)" for k' i
      by (simp add: s' split: if_splits)
    moreover have "instances s' = instances s" by (simp add: s')
    ultimately show ?thesis using assms(1) unfolding wf_server_def by metis
  qed
qed

lemma wf_fetch:
  assumes "wf_server s"
  shows "wf_server (fetch_completes s i err)"
proof -
  have l: "length (instances (fetch_completes s i err)) = length (instances s)"
    by (simp add: fetch_completes_def split: option.splits)
  have k: "task_key (instances (fetch_completes s i err) ! j) = task_key (instances s ! j)" for j
    by (simp add: fetch_completes_def nth_list_update split: option.splits)
  have n: "state (instances s ! j) \<noteq> NotStarted \<Longrightarrow>
           state (instances (fetch_completes s i err) ! j) \<noteq> NotStarted" for j
    by (simp add: fetch_completes_def nth_list_update split: option.splits)
  from assms show ?thesis
    unfolding wf_server_def fetch_dict l k using n by blast
qed

lemma wf_step: "wf_server s \<Longrightarrow> wf_server (step s q)"
  by (cases q) (auto simp: wf_download wf_fetch split: option.splits dest: wf_wait)

lemma wf_run: "wf_server s \<Longrightarrow> wf_server (run s reqs)"
  unfolding run_def by (induction reqs arbitrary: s) (simp_all add: wf_step)

subsection \<open>An untracked key stays untracked until it is downloaded again\<close>

lemma download_dict_other:
  "kwargs \<noteq> Some k \<Longrightarrow>
   downloader_dict (snd (download s kwargs launch)) k = downloader_dict s k"
  by (cases rule: download_cases[where kwargs=kwargs and launch=launch])
     (auto simp: download_no_url download_raises download_returns)

lemma untracked_step:
  assumes "dict_get (downloader_dict s) k = PyNone" and "\<not> is_download_of k q"
  shows "dict_get (downloader_dict (step s q)) k = PyNone"
proof (cases q)
  case (DownloadReq kwargs launch)
  with assms show ?thesis by (simp add: dict_get_def download_dict_other)
next
  case (WaitReq kwargs)
  show ?thesis
  proof (cases "wait_for_status s kwargs")
    case None
    with WaitReq assms show ?thesis by simp
  next
    case (Some p)
    obtain r s' where p: "p = (r, s')" by (cases p)
    from wait_cases[OF Some[unfolded p]] assms(1) have "dict_get (downloader_dict s') k = PyNone"
      by (auto simp: dict_get_def)
    with WaitReq Some p show ?thesis by simp
  qed
next
  case (FetchDone i err)
  with assms show ?thesis by simp
qed

lemma untracked_run:
  "dict_get (downloader_dict s) k = PyNone \<Longrightarrow> \<forall>q \<in> set reqs. \<not> is_download_of k q \<Longrightarrow>
   dict_get (downloader_dict (run s reqs)) k = PyNone"
  unfolding run_def
  by (induction reqs arbitrary: s) (simp_all add: untracked_step)

lemma wait_untracked:
  "archive_url \<noteq> [] \<Longrightarrow> dict_get (downloader_dict s) archive_url = PyNone \<Longrightarrow>
   wait_for_status s (Some archive_url) =
     Some (if BuildStaged s archive_url then Inr (Text ''Success'') else Inl no_download_found, s)"
  by (simp add: wait_for_status_def)

subsection \<open>A None entry and an absent key are served alike\<close>

lemma dict_get_upd: "dict_get (d(k \<mapsto> v)) = (dict_get d)(k := v)"
  by (rule ext) (simp add: dict_get_def)

lemma same_view_download:
  assumes "same_view s t"
  shows "fst (download s kwargs launch) = fst (download t kwargs launch) \<and>
         same_view (snd (download s kwargs launch)) (snd (download t kwargs launch))"
  using assms
  by (cases rule: download_cases[where kwargs=kwargs and launch=launch])
     (auto simp: download_no_url download_raises download_returns same_view_def dict_get_upd)

lemma GetStatus_instances:
  "instances s = instances t \<Longrightarrow>
   GetStatusOfBackgroundDownloads s i = GetStatusOfBackgroundDownloads t i"
  by (simp add: GetStatusOfBackgroundDownloads_def)

lemma same_view_wait:
  assumes "same_view s t"
  shows "rel_option (\<lambda>(r, s') (r', t'). r = r' \<and> same_view s' t')
           (wait_for_status s kwargs) (wait_for_status t kwargs)"
proof -
  have i: "instances s = instances t" and st: "staged s = staged t"
    and d: "\<And>k. dict_get (downloader_dict s) k = dict_get (downloader_dict t) k"
    using assms by (simp_all add: same_view_def)
  show ?thesis
    using assms GetStatus_instances[OF i]
    by (auto simp: wait_for_status_def d BuildStaged_def st same_view_def dict_get_upd
        split: option.splits pyref.splits)
qed

lemma same_view_fetch:
  "same_view s t \<Longrightarrow> same_view (fetch_completes s i err) (fetch_completes t i err)"
  by (auto simp: same_view_def fetch_completes_def split: option.splits)

lemma same_view_step:
  assumes "same_view s t"
  shows "same_view (step s q) (step t q)"
proof (cases q)
  case (DownloadReq kwargs launch)
  with same_view_download[OF assms] show ?thesis by simp
next
  case (WaitReq kwargs)
  with same_view_wait[OF assms, of kwargs] assms show ?thesis
    by (auto simp: option.rel_sel split: option.splits)
next
  case (FetchDone i err)
  with same_view_fetch[OF assms] show ?thesis by simp
qed

lemma same_view_run: "same_view s t \<Longrightarrow> same_view (run s reqs) (run t reqs)"
  unfolding run_def by (induction reqs arbitrary: s t) (simp_all add: same_view_step)

lemma dom_step: "dom (downloader_dict s) \<subseteq> dom (downloader_dict (step s q))"
proof (cases q)
  case (DownloadReq kwargs launch)
  then show ?thesis
    by (cases rule: download_cases[where kwargs=kwargs and launch=launch])
       (auto simp: download_no_url download_raises download_returns)
next
  case (WaitReq kwargs)
  then show ?thesis
    using wait_cases[of s kwargs] by (auto split: option.splits)
next
  case (FetchDone i err)
  then show ?thesis by simp
qed

lemma dom_run: "dom (downloader_dict s) \<subseteq> dom (downloader_dict (run s reqs))"
  unfolding run_def
proof (induction reqs arbitrary: s)
  case Nil
  show ?case by simp
next
  case (Cons q reqs)
  from dom_step[of s q] Cons[of "step s q"] show ?case by auto
qed

section \<open>The claims about staging and polling\<close>

text \<open>
  C1 does not hold of the code. \<^verbatim>\<open>download\<close> never looks at the entry a key already has:
  it writes the new object over it (line 236) and launches. After two download requests
  for one key, both launched and neither finished, two tasks are Running for that key, and
  the dictionary tracks the second of them alone.
\<close>

theorem two_downloads_two_running:
  "running_tasks
     (run (init_server {})
        [DownloadReq (Some ''gs://bucket/build-A'') (Inr ''Success''),
         DownloadReq (Some ''gs://bucket/build-A'') (Inr ''Success'')])
     ''gs://bucket/build-A'' = [0, 1] \<and>
   tracked_running
     (run (init_server {})
        [DownloadReq (Some ''gs://bucket/build-A'') (Inr ''Success''),
         DownloadReq (Some ''gs://bucket/build-A'') (Inr ''Success'')])
     ''gs://bucket/build-A'' = [1]"
  by (simp add: run_def init_server_def download_def Downloader_def Download_def
      running_tasks_def tracked_running_def upt_rec)



text \<open>
  C3: wait_for_status for a given (non-empty) archive url with no tracked task returns at
  once, with \<^verbatim>\<open>'Success'\<close> when the build is staged and with the error ``No download for
  the given archive_url found.'' otherwise; the state is left as it was.
\<close>

theorem wait_for_status_untracked:
  assumes "archive_url \<noteq> []" and "dict_get (downloader_dict s) archive_url = PyNone"
  shows "wait_for_status s (Some archive_url) =
           Some (if BuildStaged s archive_url then Inr (Text ''Success'')
                 else Inl no_download_found, s)"
  using assms by (simp add: wait_for_status_def)

theorem wait_for_status_untracked_witness:
  "build_A \<noteq> [] \<and>
   dict_get (downloader_dict (init_server {build_A})) build_A = PyNone \<and>
   wait_for_status (init_server {build_A}) (Some build_A) =
     Some (Inr (Text ''Success''), init_server {build_A}) \<and>
   dict_get (downloader_dict (init_server {})) build_A = PyNone \<and>
   wait_for_status (init_server {}) (Some build_A) =
     Some (Inl no_download_found, init_server {})"
  using wait_for_status_untracked[of build_A "init_server {build_A}"]
    wait_for_status_untracked[of build_A "init_server {}"]
  by (simp add: init_server_def dict_get_def BuildStaged_def build_A_def)

text \<open>
  C4: when a wait_for_status on a tracked key returns a status, that status is the terminal
  status of the tracked object and the key is no longer tracked; after any further requests
  that do not download the key again, a wait_for_status for the key is answered from
  BuildStaged alone (\<^verbatim>\<open>'Success'\<close> when staged).
\<close>

theorem wait_for_status_single_consumer:
  assumes "downloader_dict s archive_url = Some (Ref i)"
    and "wait_for_status s (Some archive_url) = Some (Inr st, s')"
    and "\<forall>q \<in> set reqs. \<not> is_download_of archive_url q"
  shows "GetStatusOfBackgroundDownloads s i = Some st \<and>
         dict_get (downloader_dict s') archive_url = PyNone \<and>
         wait_for_status (run s' reqs) (Some archive_url) =
           Some (if BuildStaged (run s' reqs) archive_url then Inr (Text ''Success'')
                 else Inl no_download_found, run s' reqs)"
proof -
  from assms(2) have ne: "archive_url \<noteq> []"
    by (auto simp: wait_for_status_def)
  from assms(1,2) ne have st: "GetStatusOfBackgroundDownloads s i = Some st"
    and s': "s' = s\<lparr>downloader_dict := (downloader_dict s)(archive_url \<mapsto> PyNone)\<rparr>"
    by (auto simp: wait_for_status_def dict_get_def split: option.splits)
  have un: "dict_get (downloader_dict s') archive_url = PyNone"
    by (simp add: s' dict_get_def)
  from untracked_run[OF un assms(3)] ne st un show ?thesis
    by (simp add: wait_untracked)
qed

theorem wait_for_status_single_consumer_witness:
  "downloader_dict staged_A build_A = Some (Ref 0) \<and>
   wait_for_status staged_A (Some build_A) =
     Some (Inr (Text ''Success''), staged_A\<lparr>downloader_dict := [build_A \<mapsto> PyNone]\<rparr>) \<and>
   \<not> is_download_of build_A (WaitReq (Some build_A)) \<and>
   GetStatusOfBackgroundDownloads staged_A 0 = Some (Text ''Success'') \<and>
   wait_for_status (run (staged_A\<lparr>downloader_dict := [build_A \<mapsto> PyNone]\<rparr>) [WaitReq (Some build_A)])
       (Some build_A) =
     Some (Inr (Text ''Success''), staged_A\<lparr>downloader_dict := [build_A \<mapsto> PyNone]\<rparr>)"
  using wait_for_status_single_consumer[of staged_A build_A 0 "Text ''Success''"
      "staged_A\<lparr>downloader_dict := [build_A \<mapsto> PyNone]\<rparr>" "[WaitReq (Some build_A)]"]
  by (simp add: eval_defs)

text \<open>
  C8, as stated, fails: when \<^verbatim>\<open>Download\<close> raises, \<^verbatim>\<open>download\<close> raises the same
  exception to its caller (line 241) and leaves the key at None, so that a later
  wait_for_status does not report the failure.
\<close>

theorem download_reraises_counterexample:
  "download (init_server {}) (Some build_A) (Inl (DownloaderRaised ''fetch failed'')) =
     (Inl (DownloaderRaised ''fetch failed''),
      \<lparr>downloader_dict = [build_A \<mapsto> PyNone],
       instances = [\<lparr>task_key = Some build_A, state = NotStarted\<rparr>],
       staged = {}\<rparr>) \<and>
   wait_for_status
     \<lparr>downloader_dict = [build_A \<mapsto> PyNone],
      instances = [\<lparr>task_key = Some build_A, state = NotStarted\<rparr>],
      staged = {}\<rparr> (Some build_A) =
     Some (Inl no_download_found,
           \<lparr>downloader_dict = [build_A \<mapsto> PyNone],
            instances = [\<lparr>task_key = Some build_A, state = NotStarted\<rparr>],
            staged = {}\<rparr>)"
  by (simp add: eval_defs)

text \<open>
  C8, amended: for a given archive url the outcome of \<^verbatim>\<open>download\<close> is that of
  \<^verbatim>\<open>Download\<close>, whatever the state. When \<^verbatim>\<open>Download\<close> raises, the key is left at
  None and a wait_for_status for it goes to the BuildStaged check. When \<^verbatim>\<open>Download\<close>
  returns, \<^verbatim>\<open>download\<close> returns its result while the task is Running (a wait_for_status
  for the key does not return yet); a fetch that fails afterwards is recorded in the task
  as Failed with its message, no download request in that state raises it, and
  wait_for_status for the key returns it.
\<close>

theorem download_outcome_is_that_of_Download:
  fixes s :: server and archive_url :: string and launch :: "error + string" and msg :: string
  defines "s1 \<equiv> snd (download s (Some archive_url) launch)"
  defines "s2 \<equiv> fetch_completes s1 (length (instances s)) (Some msg)"
  assumes ne: "archive_url \<noteq> []"
  shows "fst (download s (Some archive_url) launch) = launch \<and>
         (isl launch \<longrightarrow>
            downloader_dict s1 archive_url = Some PyNone \<and>
            wait_for_status s1 (Some archive_url) =
              Some (if BuildStaged s1 archive_url then Inr (Text ''Success'')
                    else Inl no_download_found, s1)) \<and>
         (\<not> isl launch \<longrightarrow>
            downloader_dict s1 archive_url = Some (Ref (length (instances s))) \<and>
            state (instances s1 ! length (instances s)) = Running \<and>
            wait_for_status s1 (Some archive_url) = None \<and>
            state (instances s2 ! length (instances s)) = Failed msg \<and>
            fst (download s2 kwargs launch') =
              (if kwargs = None \<or> kwargs = Some [] then Inl no_archive_url else launch') \<and>
            wait_for_status s2 (Some archive_url) =
              Some (Inr (Failure msg),
                    s2\<lparr>downloader_dict := (downloader_dict s2)(archive_url \<mapsto> PyNone)\<rparr>))"
proof (cases launch)
  case (Inl e)
  have s1: "s1 = s\<lparr>instances := instances s @ [\<lparr>task_key = Some archive_url, state = NotStarted\<rparr>],
                   downloader_dict := (downloader_dict s)(archive_url \<mapsto> PyNone)\<rparr>"
    by (simp add: s1_def Inl download_raises[OF ne])
  have "dict_get (downloader_dict s1) archive_url = PyNone"
    by (simp add: s1 dict_get_def)
  from wait_untracked[OF ne this] Inl show ?thesis
    by (simp add: download_raises[OF ne] s1)
next
  case (Inr obj)
  let ?n = "length (instances s)"
  have s1: "s1 = s\<lparr>instances := instances s @ [\<lparr>task_key = Some archive_url, state = Running\<rparr>],
                   downloader_dict := (downloader_dict s)(archive_url \<mapsto> Ref ?n)\<rparr>"
    by (simp add: s1_def Inr download_returns[OF ne])
  have s2: "s2 = s\<lparr>instances := instances s @ [\<lparr>task_key = Some archive_url, state = Failed msg\<rparr>],
                   downloader_dict := (downloader_dict s)(archive_url \<mapsto> Ref ?n)\<rparr>"
    by (simp add: s2_def s1 fetch_completes_def)
  have d: "fst (download s2 kwargs launch') =
           (if kwargs = None \<or> kwargs = Some [] then Inl no_archive_url else launch')"
    by (cases rule: download_cases[where kwargs=kwargs and launch=launch'])
       (auto simp: download_no_url download_raises download_returns)
  have w1: "wait_for_status s1 (Some archive_url) = None"
    by (simp add: s1 wait_for_status_def dict_get_def GetStatusOfBackgroundDownloads_def ne)
  have w2: "wait_for_status s2 (Some archive_url) =
           Some (Inr (Failure msg), s2\<lparr>downloader_dict := (downloader_dict s2)(archive_url \<mapsto> PyNone)\<rparr>)"
    by (simp add: s2 wait_for_status_def dict_get_def GetStatusOfBackgroundDownloads_def ne)
  show ?thesis
    using Inr d w1 w2 by (simp add: download_returns[OF ne] s1 s2)
qed

theorem download_outcome_is_that_of_Download_witness:
  "build_A \<noteq> [] \<and> isl (Inl (DownloaderRaised ''fetch failed'') :: error + string) \<and>
   fst (download (init_server {}) (Some build_A) (Inl (DownloaderRaised ''fetch failed''))) =
     Inl (DownloaderRaised ''fetch failed'') \<and>
   downloader_dict
     (snd (download (init_server {}) (Some build_A) (Inl (DownloaderRaised ''fetch failed''))))
     build_A = Some PyNone \<and>
   \<not> isl (Inr ''Success'' :: error + string) \<and>
   download (init_server {}) (Some build_A) (Inr ''Success'') = (Inr ''Success'', running_A) \<and>
   wait_for_status running_A (Some build_A) = None \<and>
   state (instances (fetch_completes running_A 0 (Some ''fetch failed'')) ! 0) =
     Failed ''fetch failed'' \<and>
   fst (download (fetch_completes running_A 0 (Some ''fetch failed'')) (Some build_A)
          (Inr ''Success'')) = Inr ''Success'' \<and>
   wait_for_status (fetch_completes running_A 0 (Some ''fetch failed'')) (Some build_A) =
     Some (Inr (Failure ''fetch failed''),
           \<lparr>downloader_dict = [build_A \<mapsto> PyNone],
            instances = [\<lparr>task_key = Some build_A, state = Failed ''fetch failed''\<rparr>],
            staged = {}\<rparr>)"
  using download_outcome_is_that_of_Download[where s="init_server {}" and archive_url=build_A
      and launch="Inl (DownloaderRaised ''fetch failed'')" and msg="''fetch failed''"
      and kwargs="Some build_A" and launch'="Inr ''Success''"]
    download_outcome_is_that_of_Download[where s="init_server {}" and archive_url=build_A
      and launch="Inr ''Success''" and msg="''fetch failed''"
      and kwargs="Some build_A" and launch'="Inr ''Success''"]
  by (simp add: eval_defs)

text \<open>
  C10: a wait_for_status that returns the status of a tracked task, and a download whose
  launch raises, leave the key in the dictionary with the value None. From a state with
  the key at None and from the same state without the key, every run of later requests
  gives the same answers to download and wait_for_status; a wait_for_status for the key
  goes to the BuildStaged check. No request ever removes a key from the dictionary.
\<close>

theorem consumed_key_stays_as_None:
  fixes s :: server and k :: string
  defines "sN \<equiv> s\<lparr>downloader_dict := (downloader_dict s)(k \<mapsto> PyNone)\<rparr>"
  defines "sA \<equiv> s\<lparr>downloader_dict := (downloader_dict s)(k := None)\<rparr>"
  shows
  "(downloader_dict s k = Some (Ref i) \<and> wait_for_status s (Some k) = Some (Inr st, s')
      \<longrightarrow> downloader_dict s' k = Some PyNone) \<and>
   (k \<noteq> [] \<longrightarrow> downloader_dict (snd (download s (Some k) (Inl e))) k = Some PyNone) \<and>
   fst (download (run sN reqs) kwargs launch) = fst (download (run sA reqs) kwargs launch) \<and>
   map_option fst (wait_for_status (run sN reqs) kwargs) =
     map_option fst (wait_for_status (run sA reqs) kwargs) \<and>
   same_view (run sN reqs) (run sA reqs) \<and>
   (k \<noteq> [] \<longrightarrow>
      wait_for_status sN (Some k) =
        Some (if BuildStaged sN k then Inr (Text ''Success'') else Inl no_download_found, sN)) \<and>
   dom (downloader_dict s) \<subseteq> dom (downloader_dict (run s reqs))"
proof (intro conjI impI)
  assume a: "downloader_dict s k = Some (Ref i) \<and> wait_for_status s (Some k) = Some (Inr st, s')"
  then have "k \<noteq> []" by (auto simp: wait_for_status_def)
  with a show "downloader_dict s' k = Some PyNone"
    by (auto simp: wait_for_status_def dict_get_def split: option.splits)
next
  assume "k \<noteq> []"
  then show "downloader_dict (snd (download s (Some k) (Inl e))) k = Some PyNone"
    by (simp add: download_raises)
next
  have "same_view sN sA"
    by (auto simp: sN_def sA_def same_view_def dict_get_def fun_eq_iff)
  then show v: "same_view (run sN reqs) (run sA reqs)" by (rule same_view_run)
  from same_view_download[OF v]
  show "fst (download (run sN reqs) kwargs launch) = fst (download (run sA reqs) kwargs launch)"
    by simp
  from same_view_wait[OF v, of kwargs]
  show "map_option fst (wait_for_status (run sN reqs) kwargs) =
        map_option fst (wait_for_status (run sA reqs) kwargs)"
    by (cases "wait_for_status (run sN reqs) kwargs"; cases "wait_for_status (run sA reqs) kwargs")
       auto
next
  assume "k \<noteq> []"
  moreover have "dict_get (downloader_dict sN) k = PyNone"
    by (simp add: sN_def dict_get_def)
  ultimately show "wait_for_status sN (Some k) =
        Some (if BuildStaged sN k then Inr (Text ''Success'') else Inl no_download_found, sN)"
    by (rule wait_untracked)
next
  show "dom (downloader_dict s) \<subseteq> dom (downloader_dict (run s reqs))"
    by (rule dom_run)
qed

theorem consumed_key_stays_as_None_witness:
  "downloader_dict staged_A build_A = Some (Ref 0) \<and>
   wait_for_status staged_A (Some build_A) =
     Some (Inr (Text ''Success''), staged_A\<lparr>downloader_dict := [build_A \<mapsto> PyNone]\<rparr>) \<and>
   downloader_dict (staged_A\<lparr>downloader_dict := [build_A \<mapsto> PyNone]\<rparr>) build_A = Some PyNone \<and>
   build_A \<noteq> [] \<and>
   downloader_dict (snd (download staged_A (Some build_A) (Inl (DownloaderRaised ''no launch''))))
     build_A = Some PyNone \<and>
   wait_for_status (staged_A\<lparr>downloader_dict := [build_A \<mapsto> PyNone]\<rparr>) (Some build_A) =
     Some (Inr (Text ''Success''), staged_A\<lparr>downloader_dict := [build_A \<mapsto> PyNone]\<rparr>) \<and>
   wait_for_status (staged_A\<lparr>downloader_dict := Map.empty\<rparr>) (Some build_A) =
     Some (Inr (Text ''Success''), staged_A\<lparr>downloader_dict := Map.empty\<rparr>)"
  using consumed_key_stays_as_None[where s=staged_A and k=build_A and i=0
      and st="Text ''Success''" and s'="staged_A\<lparr>downloader_dict := [build_A \<mapsto> PyNone]\<rparr>"
      and e="DownloaderRaised ''no launch''" and reqs="[]" and kwargs="Some build_A"
      and launch="Inr ''Success''"]
  by (simp add: eval_defs)

section \<open>setnextupdate and symbolicate_dump\<close>

lemma copy_minidump_eq: "copy_minidump file local = local @ file"
proof (induction "file" "local" rule: copy_minidump.induct)
  case (1 f l)
  show ?case
  proof (cases "take 8192 f = []")
    case True
    then have "f = []" by (cases f) simp_all
    then show ?thesis by (simp add: copy_minidump.simps)
  next
    case False
    from 1[OF False] False show ?thesis
      by (subst copy_minidump.simps) simp
  qed
qed

lemma dropWhile_all_iff: "(\<forall>c \<in> set (dropWhile P xs). P c) \<longleftrightarrow> dropWhile P xs = []"
proof
  assume a: "\<forall>c \<in> set (dropWhile P xs). P c"
  show "dropWhile P xs = []"
  proof (rule ccontr)
    assume n: "dropWhile P xs \<noteq> []"
    then have "\<not> P (hd (dropWhile P xs))" by (rule hd_dropWhile)
    moreover from n have "hd (dropWhile P xs) \<in> set (dropWhile P xs)" by simp
    ultimately show False using a by blast
  qed
next
  assume "dropWhile P xs = []"
  then show "\<forall>c \<in> set (dropWhile P xs). P c" by (simp only: list.set ball_empty)
qed

lemma strip_empty_iff: "strip label = [] \<longleftrightarrow> (\<forall>c \<in> set label. isspace c)"
proof -
  have "strip label = [] \<longleftrightarrow> (\<forall>c \<in> set (dropWhile isspace label). isspace c)"
    by (simp add: strip_def dropWhile_eq_Nil_conv)
  also have "\<dots> \<longleftrightarrow> dropWhile isspace label = []" by (rule dropWhile_all_iff)
  also have "\<dots> \<longleftrightarrow> (\<forall>c \<in> set label. isspace c)" by (simp add: dropWhile_eq_Nil_conv)
  finally show ?thesis .
qed

lemma strip_decomp:
  "label = takeWhile isspace label @ strip label @
           rev (takeWhile isspace (rev (dropWhile isspace label)))"
proof -
  have "rev (dropWhile isspace label) =
        takeWhile isspace (rev (dropWhile isspace label)) @
        dropWhile isspace (rev (dropWhile isspace label))"
    by simp
  then have "dropWhile isspace label =
        rev (dropWhile isspace (rev (dropWhile isspace label))) @
        rev (takeWhile isspace (rev (dropWhile isspace label)))"
    by (metis rev_append rev_rev_ident)
  then show ?thesis
    unfolding strip_def by (metis takeWhile_dropWhile_id)
qed

lemma strip_ends:
  assumes "strip label \<noteq> []"
  shows "\<not> isspace (hd (strip label)) \<and> \<not> isspace (last (strip label))"
proof -
  let ?d = "dropWhile isspace label"
  let ?r = "dropWhile isspace (rev ?d)"
  from assms have r: "?r \<noteq> []" by (simp add: strip_def)
  then have h: "\<not> isspace (hd ?r)" by (rule hd_dropWhile)
  have d: "?d \<noteq> []"
  proof
    assume "?d = []"
    then have "?r = []" by (simp only: rev.simps dropWhile.simps)
    with r show False ..
  qed
  then have hd_d: "\<not> isspace (hd ?d)" by (rule hd_dropWhile)
  have "last (strip label) = hd ?r" using r by (simp add: strip_def last_rev)
  moreover have "hd (strip label) = last ?r" using r by (simp add: strip_def hd_rev)
  moreover have "last ?r = last (rev ?d)"
  proof -
    have "rev ?d = takeWhile isspace (rev ?d) @ ?r" by simp
    then have "last (rev ?d) = last (takeWhile isspace (rev ?d) @ ?r)" by simp
    also have "\<dots> = last ?r" using r by (rule last_appendR)
    finally show ?thesis by simp
  qed
  moreover have "last (rev ?d) = hd ?d" using d by (simp add: last_rev)
  ultimately show ?thesis using h hd_d by simp
qed

text \<open>
  C7: setnextupdate hands the handler the label with the white space at both ends taken
  off (the body is white space, then the stripped label, then white space, and the stripped
  label neither begins nor ends with white space), so that label is the one stored for the
  ip. A body that is empty or all white space gives HTTP error 400 and, whatever the
  handler is, the updater's state as it was: the handler is not called.
\<close>

theorem setnextupdate_strips_label:
  "(strip label \<noteq> [] \<longrightarrow>
      setnextupdate handle u ip label =
        (case handle u ip (strip label) of (r, u') \<Rightarrow> (Inr r, u')) \<and>
      fst (setnextupdate HandleSetUpdatePing hosts ip label) = Inr () \<and>
      map_option forced_label (snd (setnextupdate HandleSetUpdatePing hosts ip label) ip) =
        Some (Some (strip label)) \<and>
      \<not> isspace (hd (strip label)) \<and> \<not> isspace (last (strip label))) \<and>
   label = takeWhile isspace label @ strip label @
           rev (takeWhile isspace (rev (dropWhile isspace label))) \<and>
   ((\<forall>c \<in> set label. isspace c) \<longrightarrow>
      setnextupdate handle u ip label = (Inl (HTTPError 400 ''No label provided.''), u))"
proof (intro conjI impI)
  assume ne: "strip label \<noteq> []"
  then have l: "label \<noteq> []" by (auto simp: strip_def)
  from ne l show "setnextupdate handle u ip label =
        (case handle u ip (strip label) of (r, u') \<Rightarrow> (Inr r, u'))"
    by (simp add: setnextupdate_def)
  from ne l show "fst (setnextupdate HandleSetUpdatePing hosts ip label) = Inr ()"
    by (simp add: setnextupdate_def HandleSetUpdatePing_def)
  from ne l show "map_option forced_label
        (snd (setnextupdate HandleSetUpdatePing hosts ip label) ip) = Some (Some (strip label))"
    by (simp add: setnextupdate_def HandleSetUpdatePing_def split: option.splits)
  from strip_ends[OF ne] show "\<not> isspace (hd (strip label))" "\<not> isspace (last (strip label))"
    by simp_all
next
  show "label = takeWhile isspace label @ strip label @
           rev (takeWhile isspace (rev (dropWhile isspace label)))"
    by (rule strip_decomp)
next
  assume "\<forall>c \<in> set label. isspace c"
  then have "strip label = []" by (simp add: strip_empty_iff)
  then show "setnextupdate handle u ip label = (Inl (HTTPError 400 ''No label provided.''), u)"
    by (simp add: setnextupdate_def no_label_provided_def)
qed

theorem setnextupdate_strips_label_witness:
  "strip ''  R1-100  '' \<noteq> [] \<and>
   setnextupdate HandleSetUpdatePing Map.empty ''10.0.0.5'' ''  R1-100  '' = (Inr (), host_R1) \<and>
   strip ''  R1-100  '' = ''R1-100'' \<and>
   list_all isspace ''   '' \<and>
   setnextupdate HandleSetUpdatePing host_R1 ''10.0.0.5'' ''   '' =
     (Inl (HTTPError 400 ''No label provided.''), host_R1)"
  using setnextupdate_strips_label[of "''  R1-100  ''" HandleSetUpdatePing Map.empty "''10.0.0.5''" Map.empty]
    setnextupdate_strips_label[of "''   ''" HandleSetUpdatePing host_R1 "''10.0.0.5''" host_R1]
  by (simp add: strip_def isspace_def host_R1_def setnextupdate_def HandleSetUpdatePing_def)

text \<open>
  C9: symbolicate_dump raises exactly when the return code of minidump_stackwalk, run on
  the copied dump, is not zero; with return code zero it returns the captured stdout.
\<close>

theorem symbolicate_dump_raises_iff_nonzero_exit:
  assumes "stackwalk minidump (static_dir @ ''/debug/breakpad'') = (out, err, rc)"
  shows "(isl (symbolicate_dump stackwalk static_dir minidump) \<longleftrightarrow> rc \<noteq> 0) \<and>
         (rc = 0 \<longrightarrow> symbolicate_dump stackwalk static_dir minidump = Inr out) \<and>
         (rc \<noteq> 0 \<longrightarrow>
            symbolicate_dump stackwalk static_dir minidump =
              Inl (DevServerError
                     (''Can'' @ [CHR 0x27] @ ''t generate stack trace: '' @ err @
                      '' (rc='' @ str_int rc @ '')'')))"
  using assms by (simp add: symbolicate_dump_def copy_minidump_eq)

theorem symbolicate_dump_raises_iff_nonzero_exit_witness:
  "stackwalk_ex ''MDMP'' (''/srv/static'' @ ''/debug/breakpad'') = (''Crash reason: SIGSEGV'', '''', 0) \<and>
   symbolicate_dump stackwalk_ex ''/srv/static'' ''MDMP'' = Inr ''Crash reason: SIGSEGV'' \<and>
   stackwalk_ex ''junk'' (''/srv/static'' @ ''/debug/breakpad'') = ('''', ''no dump'', 1) \<and>
   symbolicate_dump stackwalk_ex ''/srv/static'' ''junk'' =
     Inl (DevServerError (''Can'' @ [CHR 0x27] @ ''t generate stack trace: no dump (rc=1)''))"
  using symbolicate_dump_raises_iff_nonzero_exit[of stackwalk_ex "''MDMP''" "''/srv/static''"
      "''Crash reason: SIGSEGV''" "''''" 0]
    symbolicate_dump_raises_iff_nonzero_exit[of stackwalk_ex "''junk''" "''/srv/static''"
      "''''" "''no dump''" 1]
  by (simp add: stackwalk_ex_def str_int_def str_nat.simps)

section \<open>The cache directory at start-up\<close>

lemma lines_of_no_line_feed: "CHR 0x0A \<notin> set n \<Longrightarrow> lines_of n = [n]"
  by (induction n) auto

lemma lines_are_names:
  "\<forall>e \<in> set es. CHR 0x0A \<notin> set (name e) \<Longrightarrow>
   concat (map (\<lambda>e. lines_of (name e)) es) = map name es"
  by (induction es) (simp_all add: lines_of_no_line_feed)

lemma ls_tr_by_age:
  assumes "\<forall>e \<in> set (visible dir). CHR 0x0A \<notin> set (name e)"
  shows "ls_tr dir = map name (by_age dir)"
  unfolding ls_tr_def using assms by (intro lines_are_names) (simp add: by_age_def)

lemma set_by_age [simp]: "set (by_age dir) = set (visible dir)"
  by (simp add: by_age_def)

lemma length_by_age [simp]: "length (by_age dir) = length (visible dir)"
  by (simp add: by_age_def)

lemma distinct_by_age: "distinct (visible dir) \<Longrightarrow> distinct (by_age dir)"
  by (simp add: by_age_def)

lemma sorted_by_age: "sorted (map mtime (by_age dir))"
  by (simp add: by_age_def)

lemma visible_subset: "set (visible dir) \<subseteq> set dir"
  by (auto simp: visible_def)

lemma distinct_visible: "distinct (map name dir) \<Longrightarrow> distinct (visible dir)"
  by (simp add: visible_def distinct_map)

lemma older_before_newer:
  assumes "sorted (map mtime xs)" and "d \<in> set (take m xs)" and "k \<in> set (drop m xs)"
  shows "mtime d \<le> mtime k"
proof -
  have "sorted (map mtime (take m xs) @ map mtime (drop m xs))"
    using assms(1) by (simp flip: map_append)
  with assms(2,3) show ?thesis
    by (auto simp: sorted_append)
qed

lemma take_drop_disjoint:
  "distinct xs \<Longrightarrow> set (take m xs) \<inter> set (drop m xs) = {}"
  using distinct_append[of "take m xs" "drop m xs"] by simp

lemma victims_are_entries:
  assumes "distinct (map name dir)" and "T \<subseteq> set dir" and "e \<in> set dir"
  shows "name e \<in> name ` T \<longleftrightarrow> e \<in> T"
proof -
  from assms(1) have "inj_on name (set dir)" by (simp add: distinct_map)
  with assms(2,3) show ?thesis by (auto dest: inj_onD)
qed

lemma clean_old_result:
  assumes names: "distinct (map name dir)"
    and path: "plain_path cache_dir"
    and nolf: "\<forall>e \<in> set (visible dir). CHR 0x0A \<notin> set (name e)"
    and ok: "\<forall>e \<in> set (take (length (visible dir) - n) (by_age dir)).
               plain_word (name e) \<and> removable (name e)"
  shows "os_system removable (CleanOld cache_dir n) dir =
           Inr (0, filter (\<lambda>e. e \<notin> set (take (length (visible dir) - n) (by_age dir))) dir)"
proof -
  let ?m = "length (visible dir) - n"
  let ?T = "set (take ?m (by_age dir))"
  let ?lines = "head_lines_minus n (ls_tr dir)"
  have lines: "?lines = map name (take ?m (by_age dir))"
    by (simp add: head_lines_minus_def ls_tr_by_age[OF nolf] take_map)
  have T: "?T \<subseteq> set (visible dir)"
    using set_take_subset[of ?m "by_age dir"] by simp
  then have T': "?T \<subseteq> set dir" using visible_subset by blast
  have plain: "filter (\<lambda>l. \<not> plain_word l) ?lines = []"
    using ok by (auto simp: lines filter_empty_conv)
  have rem: "\<And>e. name e \<in> set ?lines \<Longrightarrow> e \<in> set dir \<Longrightarrow> removable (name e) \<and> e \<in> ?T"
  proof -
    fix e assume "name e \<in> set ?lines" and e: "e \<in> set dir"
    then have "name e \<in> name ` ?T" by (simp add: lines)
    with victims_are_entries[OF names T' e] have "e \<in> ?T" by simp
    with ok show "removable (name e) \<and> e \<in> ?T" by blast
  qed
  have none: "\<not> list_ex (\<lambda>e. name e \<in> set ?lines \<and> \<not> removable (name e)) dir"
    using rem by (auto simp: list_ex_iff)
  have keep: "filter (\<lambda>e. \<not> (name e \<in> set ?lines \<and> removable (name e))) dir =
              filter (\<lambda>e. e \<notin> ?T) dir"
  proof (rule filter_cong[OF refl])
    fix e assume e: "e \<in> set dir"
    show "(\<not> (name e \<in> set ?lines \<and> removable (name e))) = (e \<notin> ?T)"
    proof
      assume "\<not> (name e \<in> set ?lines \<and> removable (name e))"
      with rem[OF _ e] have "name e \<notin> set ?lines" by blast
      then show "e \<notin> ?T" by (auto simp: lines)
    next
      assume "e \<notin> ?T"
      with rem[OF _ e] show "\<not> (name e \<in> set ?lines \<and> removable (name e))" by blast
    qed
  qed
  have "rm_rf removable ?lines dir = (0, filter (\<lambda>e. e \<notin> ?T) dir)"
    unfolding rm_rf_def keep using none by simp
  then show ?thesis
    by (simp add: os_system_def path xargs_rm_rf_def plain)
qed

lemma clean_old_props:
  fixes dir :: "entry list" and n :: nat
  defines "dir' \<equiv> filter (\<lambda>e. e \<notin> set (take (length (visible dir) - n) (by_age dir))) dir"
  assumes names: "distinct (map name dir)"
    and times: "distinct (map mtime (visible dir))"
  shows "filter (\<lambda>e. hidden (name e)) dir' = filter (\<lambda>e. hidden (name e)) dir"
    and "length (visible dir) \<le> n \<Longrightarrow> dir' = dir"
    and "n < length (visible dir) \<Longrightarrow> length (visible dir') = n"
    and "set dir' \<subseteq> set dir"
    and "\<forall>d \<in> set dir - set dir'. \<forall>k \<in> set (visible dir'). mtime d < mtime k"
proof -
  let ?m = "length (visible dir) - n"
  let ?L = "by_age dir"
  let ?T = "set (take ?m ?L)"
  have T: "?T \<subseteq> set (visible dir)"
    using set_take_subset[of ?m ?L] by simp
  have dV: "distinct (visible dir)" using names by (rule distinct_visible)
  then have dL: "distinct ?L" by (rule distinct_by_age)
  show "filter (\<lambda>e. hidden (name e)) dir' = filter (\<lambda>e. hidden (name e)) dir"
    unfolding dir'_def using T by (auto simp: visible_def intro!: filter_cong)
  show "length (visible dir) \<le> n \<Longrightarrow> dir' = dir"
    by (simp add: dir'_def)
  show "set dir' \<subseteq> set dir" by (auto simp: dir'_def)
  have vis: "visible dir' = filter (\<lambda>e. e \<notin> ?T) (visible dir)"
    by (simp add: dir'_def visible_def conj_commute)
  have "set ?L = ?T \<union> set (drop ?m ?L)"
    using set_append[of "take ?m ?L" "drop ?m ?L"] by simp
  with take_drop_disjoint[OF dL, of ?m]
  have kept: "set (visible dir') = set (drop ?m ?L)"
    by (auto simp: vis)
  have "distinct (visible dir')" using dV by (simp add: vis)
  then have "length (visible dir') = card (set (drop ?m ?L))"
    by (simp add: distinct_card flip: kept)
  also have "\<dots> = length (drop ?m ?L)"
    using dL by (simp add: distinct_card)
  finally have len: "length (visible dir') = length (visible dir) - ?m" by simp
  then show "n < length (visible dir) \<Longrightarrow> length (visible dir') = n" by simp
  show "\<forall>d \<in> set dir - set dir'. \<forall>k \<in> set (visible dir'). mtime d < mtime k"
  proof (intro ballI)
    fix d k assume "d \<in> set dir - set dir'" and "k \<in> set (visible dir')"
    then have d: "d \<in> ?T" and k: "k \<in> set (drop ?m ?L)"
      unfolding kept by (auto simp: dir'_def)
    from older_before_newer[OF sorted_by_age d k] have le: "mtime d \<le> mtime k" .
    from d k take_drop_disjoint[OF dL, of ?m] have "d \<noteq> k" by blast
    moreover from d T have "d \<in> set (visible dir)" by blast
    moreover from k have "k \<in> set (visible dir)"
      using set_drop_subset[of ?m ?L] by auto
    moreover from times have "inj_on mtime (set (visible dir))" by (simp add: distinct_map)
    ultimately have "mtime d \<noteq> mtime k" by (auto dest: inj_onD)
    with le show "mtime d < mtime k" by simp
  qed
qed

lemmas cache_eval = cache_setup_def os_system_def xargs_rm_rf_def rm_rf_def head_lines_minus_def
  ls_tr_def by_age_def visible_def hidden_def dir13_def dir15_def dir_lf_def CACHED_ENTRIES_def
  plain_word_def xargs_special_def plain_path_def path_char_def str_nat.simps




text \<open>
  C6: when the cache directory does not exist, no command is run. When it exists, exactly
  one command is run, the full wipe with \<^verbatim>\<open>--clear_cache\<close> and the eviction without.
  Whatever the command does, a status other than 0 logs the failure and exits with
  status 1; with the shell as modelled, the pass exits with 1 exactly when a deletion
  fails, and otherwise goes on without logging.
\<close>

theorem cache_pass_failure_is_fatal:
  "cache_setup system cache_dir clear_cache None =
     Inr \<lparr>exited = None, logged = [], ran = [], cache = []\<rparr> \<and>
   (system (if clear_cache then ClearCache cache_dir else CleanOld cache_dir 12) dir =
        Inr (st, dir') \<and> st \<noteq> 0 \<longrightarrow>
      cache_setup system cache_dir clear_cache (Some dir) =
        Inr \<lparr>exited = Some 1,
             logged = [(if clear_cache then ''Failed to clear the cache with ''
                        else ''Failed to clean up old delta cache files with '') @
                       cmd_text (if clear_cache then ClearCache cache_dir
                                 else CleanOld cache_dir 12)],
             ran = [if clear_cache then ClearCache cache_dir else CleanOld cache_dir 12],
             cache = dir'\<rparr>) \<and>
   (cache_setup (os_system removable) cache_dir clear_cache (Some dir) = Inr r \<longrightarrow>
      ran r = [if clear_cache then ClearCache cache_dir else CleanOld cache_dir 12] \<and>
      (exited r = Some 1 \<longleftrightarrow> deletion_fails removable (hd (ran r)) dir) \<and>
      (exited r = None \<longleftrightarrow> \<not> deletion_fails removable (hd (ran r)) dir) \<and>
      (logged r = [] \<longleftrightarrow> \<not> deletion_fails removable (hd (ran r)) dir))"
proof (intro conjI impI)
  show "cache_setup system cache_dir clear_cache None =
     Inr \<lparr>exited = None, logged = [], ran = [], cache = []\<rparr>"
    by (simp add: cache_setup_def)
next
  assume "system (if clear_cache then ClearCache cache_dir else CleanOld cache_dir 12) dir =
        Inr (st, dir') \<and> st \<noteq> 0"
  then show "cache_setup system cache_dir clear_cache (Some dir) =
        Inr \<lparr>exited = Some 1,
             logged = [(if clear_cache then ''Failed to clear the cache with ''
                        else ''Failed to clean up old delta cache files with '') @
                       cmd_text (if clear_cache then ClearCache cache_dir
                                 else CleanOld cache_dir 12)],
             ran = [if clear_cache then ClearCache cache_dir else CleanOld cache_dir 12],
             cache = dir'\<rparr>"
    by (cases clear_cache) (simp_all add: cache_setup_def CACHED_ENTRIES_def)
next
  assume a: "cache_setup (os_system removable) cache_dir clear_cache (Some dir) = Inr r"
  show "ran r = [if clear_cache then ClearCache cache_dir else CleanOld cache_dir 12]"
    using a by (auto simp: cache_setup_def CACHED_ENTRIES_def split: if_splits sum.splits)
  have "(exited r = Some 1 \<longleftrightarrow> deletion_fails removable (hd (ran r)) dir) \<and>
        (exited r = None \<longleftrightarrow> \<not> deletion_fails removable (hd (ran r)) dir) \<and>
        (logged r = [] \<longleftrightarrow> \<not> deletion_fails removable (hd (ran r)) dir)"
  proof (cases clear_cache)
    case True
    with a show ?thesis
      by (auto simp: cache_setup_def os_system_def rm_rf_def deletion_fails_def
          split: if_splits)
  next
    case False
    with a show ?thesis
      by (auto simp: cache_setup_def os_system_def xargs_rm_rf_def rm_rf_def deletion_fails_def
          CACHED_ENTRIES_def split: if_splits list.splits)
  qed
  then show "exited r = Some 1 \<longleftrightarrow> deletion_fails removable (hd (ran r)) dir"
    and "exited r = None \<longleftrightarrow> \<not> deletion_fails removable (hd (ran r)) dir"
    and "logged r = [] \<longleftrightarrow> \<not> deletion_fails removable (hd (ran r)) dir"
    by simp_all
qed

theorem cache_pass_failure_is_fatal_witness:
  "os_system (\<lambda>n. n \<noteq> ''b02'') (CleanOld ''/srv/static/cache'' 12) dir15 =
     Inr (31488, filter (\<lambda>e. name e \<noteq> ''b03'') dir15) \<and>
   deletion_fails (\<lambda>n. n \<noteq> ''b02'') (CleanOld ''/srv/static/cache'' 12) dir15 \<and>
   cache_setup (os_system (\<lambda>n. n \<noteq> ''b02'')) ''/srv/static/cache'' False (Some dir15) =
     Inr \<lparr>exited = Some 1,
          logged = [''Failed to clean up old delta cache files with cd /srv/static/cache; ls -tr | head --lines=-12 | xargs rm -rf''],
          ran = [CleanOld ''/srv/static/cache'' 12],
          cache = filter (\<lambda>e. name e \<noteq> ''b03'') dir15\<rparr> \<and>
   cache_setup (os_system (\<lambda>n. n \<noteq> ''b02'')) ''/srv/static/cache'' True (Some dir15) =
     Inr \<lparr>exited = Some 1,
          logged = [''Failed to clear the cache with rm -rf /srv/static/cache/*''],
          ran = [ClearCache ''/srv/static/cache''],
          cache = [\<lparr>name = ''.keep'', mtime = 1\<rparr>, \<lparr>name = ''b02'', mtime = 2\<rparr>]\<rparr>"
  using cache_pass_failure_is_fatal[of "os_system (\<lambda>n. n \<noteq> ''b02'')" "''/srv/static/cache''"
      False dir15 31488 "filter (\<lambda>e. name e \<noteq> ''b03'') dir15" "\<lambda>n. n \<noteq> ''b02''"
      "\<lparr>exited = Some 1,
          logged = [''Failed to clean up old delta cache files with cd /srv/static/cache; ls -tr | head --lines=-12 | xargs rm -rf''],
          ran = [CleanOld ''/srv/static/cache'' 12],
          cache = filter (\<lambda>e. name e \<noteq> ''b03'') dir15\<rparr>"]
  by (simp add: cache_eval deletion_fails_def)

end
